theory Spec2Isabelle
  imports Main
begin

section \<open>The lookup handler of trumail (api/lookup.go)\<close>

text \<open>
  The handler \<open>Service.Lookup\<close> parses the address of a request, asks the lookup cache,
  runs the verifier on a miss, stores a successful lookup, reports metrics and encodes
  the result in the requested format. The model follows the Go source function by
  function. What the source imports and does not define (the verifier package, the
  cache, echo, raven, tinystat, the strings package) appears as parameters or as the
  small definitions of the next subsections. Logging through \<open>s.log\<close> has no effect on
  the result and is left out. Requests are handled one at a time.
\<close>

subsection \<open>Values\<close>

text \<open>
  Go's \<open>error\<close>: an \<open>*echo.HTTPError\<close> made by \<open>echo.NewHTTPError(code, message)\<close>, or any
  other error, of which only a message is kept.
\<close>

datatype error = HTTPError (Code: int) (Message: string) | Error string

text \<open>
  \<open>verifier.Address\<close> and \<open>verifier.Lookup\<close> are declared outside this file. The handler
  reads \<open>address.MD5Hash\<close> and \<open>r.Deliverable\<close>; the remaining fields are kept as one
  uninterpreted value each.
\<close>

record verifier_Address =
  Address :: string
  MD5Hash :: string

record verifier_Lookup =
  Deliverable :: bool
  Details :: string

text \<open>
  The \<open>res interface{}\<close> handed to \<open>countAndRespond\<close>, by its dynamic type: a
  \<open>*verifier.Lookup\<close>, an \<open>error\<close>, or anything else.
\<close>

datatype res = ResLookup verifier_Lookup | ResError error | ResOther

text \<open>
  The request as the handler reads it from the \<open>echo.Context\<close>: \<open>c.Param(name)\<close> and
  \<open>c.QueryParam(name)\<close>, both the empty string when the name is absent.
\<close>

record Context =
  params :: "(string \<times> string) list"
  query :: "(string \<times> string) list"

definition Param :: "Context \<Rightarrow> string \<Rightarrow> string" where
  "Param c name = (case map_of (params c) name of Some v \<Rightarrow> v | None \<Rightarrow> [])"

definition QueryParam :: "Context \<Rightarrow> string \<Rightarrow> string" where
  "QueryParam c name = (case map_of (query c) name of Some v \<Rightarrow> v | None \<Rightarrow> [])"

text \<open>
  The writers of the \<open>echo.Context\<close>. \<open>respond\<close> ends in a call of one of them and
  returns what the call returns, so the model keeps the call with its arguments.
\<close>

datatype echo_call = JSON int res | JSONP int string res | XML int res

fun call_code :: "echo_call \<Rightarrow> int" where
  "call_code (JSON code r) = code"
| "call_code (JSONP code callback r) = code"
| "call_code (XML code r) = code"

fun call_res :: "echo_call \<Rightarrow> res" where
  "call_res (JSON code r) = r"
| "call_res (JSONP code callback r) = r"
| "call_res (XML code r) = r"

text \<open>
  Modelled from the spec: the bodies echo writes are not in this file. Section 6 of the
  specification: "on success, the serialized Verdict; on error, a serialized error
  description; JSONP wraps the body as callback(<body>)". The JSON and XML serializers
  are parameters.
\<close>

fun body :: "(res \<Rightarrow> string) \<Rightarrow> (res \<Rightarrow> string) \<Rightarrow> echo_call \<Rightarrow> string" where
  "body json xml (JSON code r) = json r"
| "body json xml (JSONP code callback r) = callback @ ''('' @ json r @ '')''"
| "body json xml (XML code r) = xml r"

text \<open>
  The HTTP status of what the handler returns: the code given to the writer, or the
  code of a returned \<open>HTTPError\<close>.
\<close>

fun has_status :: "int \<Rightarrow> error + echo_call \<Rightarrow> bool" where
  "has_status code (Inr call) = (call_code call = code)"
| "has_status code (Inl (HTTPError c m)) = (c = code)"
| "has_status code (Inl (Error m)) = False"

subsection \<open>strings.ToUpper\<close>

text \<open>
  \<open>strings.ToUpper\<close> on ASCII text: the letters a to z become A to Z, every other byte
  stays. Go maps letters outside ASCII by the Unicode tables as well; the model leaves
  their bytes as they are, so it speaks about format selectors written in ASCII.
\<close>

definition upper :: "char \<Rightarrow> char" where
  "upper c = (case map_of (zip ''abcdefghijklmnopqrstuvwxyz'' ''ABCDEFGHIJKLMNOPQRSTUVWXYZ'') c of
                Some u \<Rightarrow> u | None \<Rightarrow> c)"

definition ToUpper :: "string \<Rightarrow> string" where
  "ToUpper s = map upper s"

subsection \<open>The lookup cache\<close>

text \<open>
  Modelled from the spec: the cache behind \<open>s.lookupCache\<close> is not in this file.
  Section 4.1: "Get(hash) \<rightarrow> (Verdict, found); Set(hash, verdict) stores with the
  process-configured default TTL". Section 3: "Cache entries older than the TTL must
  not be returned as hits", "expiry is passive (checked on read)", "a new successful
  verification overwrites". An item carries the time at which it expires; times and
  durations are natural numbers.
\<close>

record Item =
  Object :: verifier_Lookup
  Expiration :: nat

record Cache =
  items :: "string \<rightharpoonup> Item"
  defaultExpiration :: nat

definition Get :: "Cache \<Rightarrow> nat \<Rightarrow> string \<Rightarrow> verifier_Lookup option" where
  "Get cache now k =
     (case items cache k of
        None \<Rightarrow> None
      | Some item \<Rightarrow> if now > Expiration item then None else Some (Object item))"

definition SetDefault :: "Cache \<Rightarrow> nat \<Rightarrow> string \<Rightarrow> verifier_Lookup \<Rightarrow> Cache" where
  "SetDefault cache now k x =
     cache\<lparr>items := (items cache)(k \<mapsto> \<lparr>Object = x, Expiration = now + defaultExpiration cache\<rparr>)\<rparr>"

subsection \<open>The service and the world it acts on\<close>

text \<open>
  Every call that leaves the handler is recorded, in the order of the calls: the two
  cache operations, the verifier, \<open>raven.CaptureError\<close> and \<open>tinystat.CreateAction\<close>.
\<close>

datatype event =
    CacheGet string
  | CacheSetDefault string verifier_Lookup
  | VerifyAddressTimeout verifier_Address nat
  | CaptureError error
  | CreateAction string

record world =
  clock :: nat
  lookupCache :: Cache
  events :: "event list"

text \<open>
  The fields of \<open>Service\<close> the handler uses besides the cache and the logger.
  \<open>s.verifier.VerifyAddressTimeout(address, s.timeout)\<close> is a parameter: given the time
  of the call, the address and the timeout it gives the lookup or the error, and the
  time the call took. Two calls at different times may answer differently.
\<close>

record Service =
  verifier :: "nat \<Rightarrow> verifier_Address \<Rightarrow> nat \<Rightarrow> (error + verifier_Lookup) \<times> nat"
  timeout :: nat

definition emit :: "event \<Rightarrow> world \<Rightarrow> world" where
  "emit e w = w\<lparr>events := events w @ [e]\<rparr>"

definition advance :: "nat \<Rightarrow> world \<Rightarrow> world" where
  "advance d w = w\<lparr>clock := clock w + d\<rparr>"

subsection \<open>The handler\<close>

definition FormatJSON :: string where "FormatJSON = ''JSON''"
definition FormatJSONP :: string where "FormatJSONP = ''JSONP''"
definition FormatXML :: string where "FormatXML = ''XML''"

definition ErrVerificationFailure :: error where
  "ErrVerificationFailure = HTTPError 500 ''Failed to perform email verification lookup''"

definition ErrUnsupportedFormat :: error where
  "ErrUnsupportedFormat = HTTPError 400 ''Unsupported format''"

definition ErrInvalidCallback :: error where
  "ErrInvalidCallback = HTTPError 400 ''Invalid callback query param provided''"

text \<open>\<open>count\<close>: the type switch on the response, with no case for other types.\<close>

fun count :: "res \<Rightarrow> world \<Rightarrow> world" where
  "count (ResLookup r) w =
     (if Deliverable r then emit (CreateAction ''deliverable'') w
      else emit (CreateAction ''undeliverable'') w)"
| "count (ResError r) w = emit (CreateAction ''error'') (emit (CaptureError r) w)"
| "count ResOther w = w"

text \<open>\<open>respond\<close>: the switch on the upper-cased \<open>format\<close> parameter.\<close>

definition respond :: "Context \<Rightarrow> int \<Rightarrow> res \<Rightarrow> error + echo_call" where
  "respond c code r =
     (let format = ToUpper (Param c ''format'') in
      if format = FormatJSON then Inr (JSON code r)
      else if format = FormatJSONP then
        (let callback = QueryParam c ''callback'' in
         if callback = [] then Inl ErrInvalidCallback
         else Inr (JSONP code callback r))
      else if format = FormatXML then Inr (XML code r)
      else Inl ErrUnsupportedFormat)"

text \<open>\<open>countAndRespond\<close>: metrics first, then the encoding.\<close>

definition countAndRespond :: "Context \<Rightarrow> int \<Rightarrow> res \<Rightarrow> world \<Rightarrow> (error + echo_call) \<times> world" where
  "countAndRespond c code r w = (let w' = count r w in (respond c code r, w'))"

text \<open>
  \<open>Lookup\<close>. \<open>verifier.ParseAddress\<close> is the parameter \<open>ParseAddress\<close>. The status codes
  are \<open>http.StatusBadRequest\<close> = 400, \<open>http.StatusOK\<close> = 200 and
  \<open>http.StatusInternalServerError\<close> = 500.
\<close>

definition Lookup ::
  "(string \<Rightarrow> error + verifier_Address) \<Rightarrow> Service \<Rightarrow> Context \<Rightarrow> world \<Rightarrow> (error + echo_call) \<times> world" where
  "Lookup ParseAddress s c w =
     (let email = Param c ''email'' in
      case ParseAddress email of
        Inl err \<Rightarrow> countAndRespond c 400 (ResError err) w
      | Inr address \<Rightarrow>
          (let w1 = emit (CacheGet (MD5Hash address)) w in
           case Get (lookupCache w1) (clock w1) (MD5Hash address) of
             Some lookup \<Rightarrow> countAndRespond c 200 (ResLookup lookup) w1
           | None \<Rightarrow>
               (let (result, elapsed) = verifier s (clock w1) address (timeout s);
                    w2 = advance elapsed (emit (VerifyAddressTimeout address (timeout s)) w1)
                in case result of
                     Inl err \<Rightarrow> countAndRespond c 500 (ResError err) w2
                   | Inr lookup \<Rightarrow>
                       (let w3 = emit (CacheSetDefault (MD5Hash address) lookup)
                                   (w2\<lparr>lookupCache :=
                                        SetDefault (lookupCache w2) (clock w2) (MD5Hash address) lookup\<rparr>)
                        in countAndRespond c 200 (ResLookup lookup) w3))))"

text \<open>
  A server that handles a list of requests one after another; each request comes with
  the time that passed since the previous one ended.
\<close>

fun serve ::
  "(string \<Rightarrow> error + verifier_Address) \<Rightarrow> Service \<Rightarrow> (nat \<times> Context) list \<Rightarrow> world \<Rightarrow> world" where
  "serve ParseAddress s [] w = w"
| "serve ParseAddress s ((d, c) # rs) w =
     serve ParseAddress s rs (snd (Lookup ParseAddress s c (advance d w)))"

subsection \<open>Reading the record of calls\<close>

text \<open>
  The actions sent to tinystat, the errors sent to raven and the addresses given to the
  verifier, each in the order of the calls.
\<close>

fun actions :: "event list \<Rightarrow> string list" where
  "actions [] = []"
| "actions (CreateAction a # es) = a # actions es"
| "actions (e # es) = actions es"

fun captured :: "event list \<Rightarrow> error list" where
  "captured [] = []"
| "captured (CaptureError err # es) = err # captured es"
| "captured (e # es) = captured es"

fun verifications :: "event list \<Rightarrow> verifier_Address list" where
  "verifications [] = []"
| "verifications (VerifyAddressTimeout a t # es) = a # verifications es"
| "verifications (e # es) = verifications es"

text \<open>The number of verifier calls so far for addresses with the hash \<open>k\<close>.\<close>

definition invocations :: "string \<Rightarrow> world \<Rightarrow> nat" where
  "invocations k w = length (filter (\<lambda>a. MD5Hash a = k) (verifications (events w)))"

text \<open>
  The requests on which \<open>respond\<close> reaches a writer: format JSON or XML, or JSONP with
  a callback.
\<close>

definition accepted :: "Context \<Rightarrow> bool" where
  "accepted c =
     (let format = ToUpper (Param c ''format'') in
      format = FormatJSON \<or> format = FormatXML \<or>
      (format = FormatJSONP \<and> QueryParam c ''callback'' \<noteq> []))"

subsection \<open>Example requests\<close>

text \<open>
  Concrete values on which the theorems below are exercised: a request with its
  \<open>email\<close> and \<open>format\<close> parameters and its \<open>callback\<close> query parameter, a parser that
  wants an at sign, a verifier that answers after two time units, a verifier that
  runs into its timeout, and a world with an empty cache that keeps items for 3600
  time units.
\<close>

definition request :: "string \<Rightarrow> string \<Rightarrow> string \<Rightarrow> Context" where
  "request email format callback =
     \<lparr>params = [(''email'', email), (''format'', format)], query = [(''callback'', callback)]\<rparr>"

definition example_ParseAddress :: "string \<Rightarrow> error + verifier_Address" where
  "example_ParseAddress email =
     (if CHR ''@'' \<in> set email then Inr \<lparr>Address = email, MD5Hash = ''md5-'' @ email\<rparr>
      else Inl (Error ''missing @''))"

definition example_Service :: Service where
  "example_Service =
     \<lparr>verifier = (\<lambda>now address t. (Inr \<lparr>Deliverable = True, Details = Address address\<rparr>, 2)),
      timeout = 10\<rparr>"

definition example_Service_down :: Service where
  "example_Service_down =
     \<lparr>verifier = (\<lambda>now address t. (Inl (Error ''deadline exceeded''), t)), timeout = 10\<rparr>"

definition example_world :: world where
  "example_world =
     \<lparr>clock = 0, lookupCache = \<lparr>items = Map.empty, defaultExpiration = 3600\<rparr>, events = []\<rparr>"

text \<open>The world after a first request for \<open>a@b.c\<close>, which the verifier answers.\<close>

definition example_after_first :: world where
  "example_after_first =
     snd (Lookup example_ParseAddress example_Service (request ''a@b.c'' ''JSON'' []) example_world)"

section \<open>Properties\<close>

subsection \<open>Auxiliary facts\<close>

lemma actions_append: "actions (xs @ ys) = actions xs @ actions ys"
  by (induction xs rule: actions.induct) auto

lemma captured_append: "captured (xs @ ys) = captured xs @ captured ys"
  by (induction xs rule: captured.induct) auto

lemma verifications_append: "verifications (xs @ ys) = verifications xs @ verifications ys"
  by (induction xs rule: verifications.induct) auto

lemma emit_fields:
  "clock (emit e w) = clock w"
  "lookupCache (emit e w) = lookupCache w"
  "events (emit e w) = events w @ [e]"
  by (simp_all add: emit_def)

lemma advance_fields:
  "clock (advance d w) = clock w + d"
  "lookupCache (advance d w) = lookupCache w"
  "events (advance d w) = events w"
  by (simp_all add: advance_def)

lemma count_fields:
  "clock (count r w) = clock w"
  "lookupCache (count r w) = lookupCache w"
  by (cases r; simp add: emit_fields)+

lemma count_events:
  "events (count (ResLookup l) w) =
     events w @ [CreateAction (if Deliverable l then ''deliverable'' else ''undeliverable'')]"
  "events (count (ResError err) w) = events w @ [CaptureError err, CreateAction ''error'']"
  "events (count ResOther w) = events w"
  by (simp_all add: emit_fields)

lemma fst_countAndRespond: "fst (countAndRespond c code r w) = respond c code r"
  by (simp add: countAndRespond_def)

lemma snd_countAndRespond: "snd (countAndRespond c code r w) = count r w"
  by (simp add: countAndRespond_def)

lemma countAndRespond_eq: "countAndRespond c code r w = (respond c code r, count r w)"
  by (simp add: countAndRespond_def)

text \<open>The four paths through \<open>Lookup\<close>.\<close>

lemma Lookup_parse_error:
  assumes "P (Param c ''email'') = Inl err"
  shows "Lookup P s c w = (respond c 400 (ResError err), count (ResError err) w)"
  using assms by (simp add: Lookup_def countAndRespond_eq)

lemma Lookup_hit:
  assumes "P (Param c ''email'') = Inr a"
    and "Get (lookupCache w) (clock w) (MD5Hash a) = Some l"
  shows "Lookup P s c w =
           (respond c 200 (ResLookup l), count (ResLookup l) (emit (CacheGet (MD5Hash a)) w))"
  using assms by (simp add: Lookup_def countAndRespond_eq emit_fields)

lemma Lookup_failure:
  assumes "P (Param c ''email'') = Inr a"
    and "Get (lookupCache w) (clock w) (MD5Hash a) = None"
    and "verifier s (clock w) a (timeout s) = (Inl err, e)"
  shows "Lookup P s c w =
           (respond c 500 (ResError err),
            count (ResError err)
              (advance e (emit (VerifyAddressTimeout a (timeout s)) (emit (CacheGet (MD5Hash a)) w))))"
  using assms by (simp add: Lookup_def countAndRespond_eq emit_fields)

lemma Lookup_fresh:
  assumes "P (Param c ''email'') = Inr a"
    and "Get (lookupCache w) (clock w) (MD5Hash a) = None"
    and "verifier s (clock w) a (timeout s) = (Inr l, e)"
  shows "Lookup P s c w =
           (respond c 200 (ResLookup l),
            count (ResLookup l)
              (emit (CacheSetDefault (MD5Hash a) l)
                 ((advance e (emit (VerifyAddressTimeout a (timeout s)) (emit (CacheGet (MD5Hash a)) w)))
                    \<lparr>lookupCache := SetDefault (lookupCache w) (clock w + e) (MD5Hash a) l\<rparr>)))"
  using assms by (simp add: Lookup_def countAndRespond_eq emit_fields advance_fields)

lemma fst_Lookup_respond: "\<exists>code r. fst (Lookup P s c w) = respond c code r"
  by (auto simp: Lookup_def fst_countAndRespond Let_def split: sum.splits option.splits prod.splits)


lemma respond_accepted:
  assumes "accepted c"
  shows "\<exists>call. respond c code r = Inr call \<and> call_code call = code \<and> call_res call = r"
  using assms
  by (auto simp: accepted_def respond_def Let_def FormatJSON_def FormatJSONP_def FormatXML_def)

lemma respond_not_accepted:
  assumes "\<not> accepted c"
  shows "respond c code r = Inl ErrUnsupportedFormat \<or> respond c code r = Inl ErrInvalidCallback"
  using assms
  by (auto simp: accepted_def respond_def Let_def FormatJSON_def FormatJSONP_def FormatXML_def)

lemma has_status_400_respond: "has_status 400 (respond c 400 r)"
  by (simp add: respond_def Let_def ErrUnsupportedFormat_def ErrInvalidCallback_def)

lemma example_simps:
  "Param (request email format callback) ''email'' = email"
  "Param (request email format callback) ''format'' = format"
  "QueryParam (request email format callback) ''callback'' = callback"
  by (simp_all add: request_def Param_def QueryParam_def)

lemma respond_JSONP:
  assumes "ToUpper (Param c ''format'') = FormatJSONP"
  shows "respond c code r =
           (if QueryParam c ''callback'' = [] then Inl ErrInvalidCallback
            else Inr (JSONP code (QueryParam c ''callback'') r))"
  using assms by (simp add: respond_def Let_def FormatJSON_def FormatJSONP_def)


lemma Lookup_counts_once:
  "\<exists>code r w'. Lookup P s c w = countAndRespond c code r w' \<and> r \<noteq> ResOther
      \<and> actions (events w') = actions (events w) \<and> captured (events w') = captured (events w)"
proof (cases "P (Param c ''email'')")
  case (Inl err)
  then have "Lookup P s c w = countAndRespond c 400 (ResError err) w"
    by (simp add: Lookup_parse_error countAndRespond_eq)
  then show ?thesis by blast
next
  case (Inr a)
  let ?w1 = "emit (CacheGet (MD5Hash a)) w"
  have w1: "actions (events ?w1) = actions (events w)" "captured (events ?w1) = captured (events w)"
    by (simp_all add: emit_fields actions_append captured_append)
  show ?thesis
  proof (cases "Get (lookupCache w) (clock w) (MD5Hash a)")
    case (Some l)
    with Inr have "Lookup P s c w = countAndRespond c 200 (ResLookup l) ?w1"
      by (simp only: Lookup_hit countAndRespond_eq)
    with w1 show ?thesis by blast
  next
    case None
    obtain result e where v: "verifier s (clock w) a (timeout s) = (result, e)"
      by (cases "verifier s (clock w) a (timeout s)")
    let ?w2 = "advance e (emit (VerifyAddressTimeout a (timeout s)) ?w1)"
    have w2: "actions (events ?w2) = actions (events w)" "captured (events ?w2) = captured (events w)"
      by (simp_all add: emit_fields advance_fields actions_append captured_append)
    show ?thesis
    proof (cases result)
      case (Inl err)
      with Inr None v have "Lookup P s c w = countAndRespond c 500 (ResError err) ?w2"
        by (simp only: Lookup_failure countAndRespond_eq)
      with w2 show ?thesis by blast
    next
      case r: (Inr l)
      let ?w3 = "emit (CacheSetDefault (MD5Hash a) l)
                   (?w2\<lparr>lookupCache := SetDefault (lookupCache w) (clock w + e) (MD5Hash a) l\<rparr>)"
      have w3: "actions (events ?w3) = actions (events w)" "captured (events ?w3) = captured (events w)"
        by (simp_all add: emit_fields advance_fields actions_append captured_append)
      from r Inr None v
      have "Lookup P s c w = countAndRespond c 200 (ResLookup l) ?w3"
        by (simp only: Lookup_fresh countAndRespond_eq)
      with w3 show ?thesis by blast
    qed
  qed
qed

lemma snd_Lookup_format_independent:
  assumes "Param c' ''email'' = Param c ''email''"
  shows "snd (Lookup P s c' w) = snd (Lookup P s c w)"
proof (cases "P (Param c ''email'')")
  case (Inl err)
  with assms show ?thesis by (simp add: Lookup_parse_error)
next
  case (Inr a)
  show ?thesis
  proof (cases "Get (lookupCache w) (clock w) (MD5Hash a)")
    case (Some l)
    with Inr assms show ?thesis by (simp add: Lookup_hit)
  next
    case None
    obtain result e where v: "verifier s (clock w) a (timeout s) = (result, e)"
      by (cases "verifier s (clock w) a (timeout s)")
    show ?thesis
    proof (cases result)
      case (Inl err)
      with Inr None v assms show ?thesis by (simp add: Lookup_failure)
    next
      case r: (Inr l)
      with Inr None v assms show ?thesis by (simp add: Lookup_fresh)
    qed
  qed
qed

lemma respond_accepted_status:
  assumes "accepted c"
  shows "has_status code (respond c code r)"
  using respond_accepted [OF assms, of code r] by auto

lemma invocations_emit:
  "invocations k (emit (VerifyAddressTimeout a t) w) =
     (if MD5Hash a = k then Suc (invocations k w) else invocations k w)"
  "invocations k (emit (CacheGet h) w) = invocations k w"
  "invocations k (emit (CacheSetDefault h l) w) = invocations k w"
  "invocations k (emit (CaptureError err) w) = invocations k w"
  "invocations k (emit (CreateAction x) w) = invocations k w"
  by (simp_all add: invocations_def emit_fields verifications_append)

lemma invocations_events:
  "events w' = events w \<Longrightarrow> invocations k w' = invocations k w"
  by (simp add: invocations_def)

lemma invocations_count: "invocations k (count r w) = invocations k w"
  by (cases r) (simp_all add: invocations_emit)

lemma invocations_advance: "invocations k (advance d w) = invocations k w"
  by (simp add: invocations_def advance_fields)

lemma Get_live:
  assumes "items cache k = Some it" and "now \<le> Expiration it"
  shows "Get cache now k = Some (Object it)"
  using assms by (simp add: Get_def)

lemma Lookup_cases:
  obtains (parse_error) err where "P (Param c ''email'') = Inl err"
      and "Lookup P s c w = (respond c 400 (ResError err), count (ResError err) w)"
  | (hit) a l where "P (Param c ''email'') = Inr a"
      and "Get (lookupCache w) (clock w) (MD5Hash a) = Some l"
      and "Lookup P s c w =
           (respond c 200 (ResLookup l), count (ResLookup l) (emit (CacheGet (MD5Hash a)) w))"
  | (failure) a err e where "P (Param c ''email'') = Inr a"
      and "Get (lookupCache w) (clock w) (MD5Hash a) = None"
      and "verifier s (clock w) a (timeout s) = (Inl err, e)"
      and "Lookup P s c w =
           (respond c 500 (ResError err),
            count (ResError err)
              (advance e (emit (VerifyAddressTimeout a (timeout s)) (emit (CacheGet (MD5Hash a)) w))))"
  | (fresh) a l e where "P (Param c ''email'') = Inr a"
      and "Get (lookupCache w) (clock w) (MD5Hash a) = None"
      and "verifier s (clock w) a (timeout s) = (Inr l, e)"
      and "Lookup P s c w =
           (respond c 200 (ResLookup l),
            count (ResLookup l)
              (emit (CacheSetDefault (MD5Hash a) l)
                 ((advance e (emit (VerifyAddressTimeout a (timeout s)) (emit (CacheGet (MD5Hash a)) w)))
                    \<lparr>lookupCache := SetDefault (lookupCache w) (clock w + e) (MD5Hash a) l\<rparr>)))"
proof (cases "P (Param c ''email'')")
  case (Inl err)
  then show ?thesis using parse_error Lookup_parse_error by blast
next
  case (Inr a)
  show ?thesis
  proof (cases "Get (lookupCache w) (clock w) (MD5Hash a)")
    case (Some l)
    with Inr show ?thesis using hit Lookup_hit by blast
  next
    case None
    obtain result e where v: "verifier s (clock w) a (timeout s) = (result, e)"
      by (cases "verifier s (clock w) a (timeout s)")
    show ?thesis
    proof (cases result)
      case (Inl err)
      with Inr None v show ?thesis using failure Lookup_failure by blast
    next
      case r: (Inr l)
      with Inr None v show ?thesis using fresh Lookup_fresh by blast
    qed
  qed
qed

lemma Lookup_clock_mono: "clock w \<le> clock (snd (Lookup P s c w))"
  by (cases rule: Lookup_cases [where P=P and c=c and w=w and s=s])
     (simp_all add: count_fields emit_fields advance_fields)

lemma Lookup_defaultExpiration:
  "defaultExpiration (lookupCache (snd (Lookup P s c w))) = defaultExpiration (lookupCache w)"
  by (cases rule: Lookup_cases [where P=P and c=c and w=w and s=s])
     (simp_all add: count_fields emit_fields advance_fields SetDefault_def)

text \<open>An item that has not expired when a request arrives is still there afterwards,
  and the request does not invoke the verifier for an address with its key.\<close>

lemma Lookup_keeps_live:
  assumes "items (lookupCache w) k = Some it" and "clock w \<le> Expiration it"
  shows "items (lookupCache (snd (Lookup P s c w))) k = Some it
       \<and> invocations k (snd (Lookup P s c w)) = invocations k w"
proof (cases rule: Lookup_cases [where P=P and c=c and w=w and s=s])
  case (parse_error err)
  with assms show ?thesis by (simp add: emit_fields invocations_emit)
next
  case (hit a l)
  with assms show ?thesis by (simp add: emit_fields invocations_emit)
next
  case (failure a err e)
  from assms have "Get (lookupCache w) (clock w) k = Some (Object it)" by (rule Get_live)
  with failure(2) have "MD5Hash a \<noteq> k" by auto
  with assms failure show ?thesis
    by (simp add: emit_fields advance_fields invocations_emit invocations_advance)
next
  case (fresh a l e)
  from assms have "Get (lookupCache w) (clock w) k = Some (Object it)" by (rule Get_live)
  with fresh(2) have ne: "MD5Hash a \<noteq> k" by auto
  have inv: "invocations k (snd (Lookup P s c w)) = invocations k w"
    using ne by (simp add: fresh(4) invocations_def emit_fields advance_fields verifications_append)
  have "items (lookupCache (snd (Lookup P s c w))) k = Some it"
    using assms(1) ne by (simp add: fresh(4) emit_fields SetDefault_def)
  with inv show ?thesis by simp
qed

lemma serve_clock_mono: "clock w \<le> clock (serve P s rs w)"
proof (induction rs arbitrary: w)
  case Nil
  show ?case by simp
next
  case (Cons r rs)
  obtain d c where r: "r = (d, c)" by (cases r)
  have "clock w \<le> clock (advance d w)" by (simp add: advance_fields)
  also have "\<dots> \<le> clock (snd (Lookup P s c (advance d w)))" by (rule Lookup_clock_mono)
  also have "\<dots> \<le> clock (serve P s rs (snd (Lookup P s c (advance d w))))" by (rule Cons.IH)
  finally show ?case by (simp add: r)
qed

lemma serve_defaultExpiration:
  "defaultExpiration (lookupCache (serve P s rs w)) = defaultExpiration (lookupCache w)"
  by (induction rs arbitrary: w) (auto simp: Lookup_defaultExpiration advance_fields)

lemma serve_keeps_live:
  assumes "items (lookupCache w) k = Some it" and "clock (serve P s rs w) \<le> Expiration it"
  shows "items (lookupCache (serve P s rs w)) k = Some it
       \<and> invocations k (serve P s rs w) = invocations k w"
  using assms
proof (induction rs arbitrary: w)
  case Nil
  then show ?case by simp
next
  case (Cons r rs)
  obtain d c where r: "r = (d, c)" by (cases r)
  let ?w' = "snd (Lookup P s c (advance d w))"
  from Cons.prems(2) have fin: "clock (serve P s rs ?w') \<le> Expiration it" by (simp add: r)
  have "clock (advance d w) \<le> clock ?w'" by (rule Lookup_clock_mono)
  also have "\<dots> \<le> clock (serve P s rs ?w')" by (rule serve_clock_mono)
  finally have live: "clock (advance d w) \<le> Expiration it" using fin by simp
  from Cons.prems(1) have it: "items (lookupCache (advance d w)) k = Some it"
    by (simp add: advance_fields)
  from Lookup_keeps_live [OF it live, of P s c]
  have step: "items (lookupCache ?w') k = Some it" "invocations k ?w' = invocations k w"
    by (simp_all add: invocations_advance)
  from Cons.IH [OF step(1) fin] step(2) show ?case by (simp add: r)
qed

lemma Lookup_served_from_cache:
  assumes "P (Param c ''email'') = Inr a"
    and "items (lookupCache w) (MD5Hash a) = Some it" and "clock w \<le> Expiration it"
  shows "Lookup P s c w =
           (respond c 200 (ResLookup (Object it)),
            count (ResLookup (Object it)) (emit (CacheGet (MD5Hash a)) w))"
  using Lookup_hit [where P=P and c=c, OF assms(1) Get_live [OF assms(2,3)]] .

lemma Lookup_fresh_world:
  assumes "P (Param c ''email'') = Inr a"
    and "Get (lookupCache w) (clock w) (MD5Hash a) = None"
    and "verifier s (clock w) a (timeout s) = (Inr l, e)"
  shows "clock (snd (Lookup P s c w)) = clock w + e"
    and "items (lookupCache (snd (Lookup P s c w))) (MD5Hash a) =
           Some \<lparr>Object = l, Expiration = clock w + e + defaultExpiration (lookupCache w)\<rparr>"
    and "events (snd (Lookup P s c w)) =
           events w @ [CacheGet (MD5Hash a), VerifyAddressTimeout a (timeout s),
                       CacheSetDefault (MD5Hash a) l,
                       CreateAction (if Deliverable l then ''deliverable'' else ''undeliverable'')]"
    and "invocations (MD5Hash a) (snd (Lookup P s c w)) = Suc (invocations (MD5Hash a) w)"
    and "fst (Lookup P s c w) = respond c 200 (ResLookup l)"
  using Lookup_fresh [where P=P and c=c, OF assms]
  by (simp_all add: emit_fields advance_fields SetDefault_def invocations_def verifications_append)

text \<open>Evaluating the examples.\<close>

lemmas eval_defs = Lookup_def countAndRespond_def Get_def SetDefault_def emit_def advance_def
  example_ParseAddress_def example_Service_def example_Service_down_def example_world_def
  example_simps Let_def

lemma example_after_first_eq:
  "example_after_first =
     \<lparr>clock = 2,
      lookupCache = \<lparr>items = [''md5-a@b.c'' \<mapsto> \<lparr>Object = \<lparr>Deliverable = True, Details = ''a@b.c''\<rparr>,
                                                 Expiration = 3602\<rparr>],
                     defaultExpiration = 3600\<rparr>,
      events = [CacheGet ''md5-a@b.c'',
                VerifyAddressTimeout \<lparr>Address = ''a@b.c'', MD5Hash = ''md5-a@b.c''\<rparr> 10,
                CacheSetDefault ''md5-a@b.c'' \<lparr>Deliverable = True, Details = ''a@b.c''\<rparr>,
                CreateAction ''deliverable'']\<rparr>"
  by (simp add: example_after_first_def eval_defs)

lemma example_serve_clock:
  "clock (advance 10 (serve example_ParseAddress example_Service [(5, request ''x@y.z'' ''json'' [])]
       example_after_first)) = 19"
  by (simp add: example_after_first_eq eval_defs)

subsection \<open>Encoding\<close>





text \<open>
  C10. For a request whose format is JSONP in any casing the callback is compared with
  the empty string and with nothing else: the encoder rejects the request exactly when
  the callback is empty, and hands every other callback to the JSONP writer as it is.
\<close>

theorem jsonp_callback_verbatim:
  assumes "ToUpper (Param c ''format'') = FormatJSONP"
  shows "(respond c code r = Inl ErrInvalidCallback) = (QueryParam c ''callback'' = [])
       \<and> (QueryParam c ''callback'' \<noteq> [] \<longrightarrow>
            respond c code r = Inr (JSONP code (QueryParam c ''callback'') r)
          \<and> body json xml (JSONP code (QueryParam c ''callback'') r)
              = QueryParam c ''callback'' @ ''('' @ json r @ '')'')"
  using respond_JSONP [OF assms, of code r] by simp

theorem jsonp_callback_verbatim_witness:
  "respond (request ''a@b.c'' ''jsonp'' ''1+alert(document.cookie);//'') 200
      (ResLookup \<lparr>Deliverable = True, Details = []\<rparr>)
     = Inr (JSONP 200 ''1+alert(document.cookie);//'' (ResLookup \<lparr>Deliverable = True, Details = []\<rparr>))
   \<and> respond (request ''a@b.c'' ''jsonp'' '' '') 200 ResOther \<noteq> Inl ErrInvalidCallback
   \<and> respond (request ''a@b.c'' ''jsonp'' []) 200 ResOther = Inl ErrInvalidCallback"
proof -
  have up: "ToUpper ''jsonp'' = FormatJSONP"
    by (simp add: ToUpper_def upper_def FormatJSONP_def)
  show ?thesis
    using jsonp_callback_verbatim [of "request ''a@b.c'' ''jsonp'' ''1+alert(document.cookie);//''" 200
        "ResLookup \<lparr>Deliverable = True, Details = []\<rparr>"]
      jsonp_callback_verbatim [of "request ''a@b.c'' ''jsonp'' '' ''" 200 ResOther]
      jsonp_callback_verbatim [of "request ''a@b.c'' ''jsonp'' []" 200 ResOther]
    by (simp add: example_simps up)
qed

subsection \<open>The paths through the handler\<close>

text \<open>
  C5. When \<open>ParseAddress\<close> rejects the raw address, the handler answers with status 400
  (from the writer, or from one of the two encoder errors, which are 400 as well), and
  the only calls it makes are the two of the metrics: the cache is neither read nor
  written, the verifier is not invoked, no time passes.
\<close>

theorem parse_error_short_circuit:
  assumes "ParseAddress (Param c ''email'') = Inl err"
  shows "has_status 400 (fst (Lookup ParseAddress s c w))
       \<and> fst (Lookup ParseAddress s c w) = respond c 400 (ResError err)
       \<and> events (snd (Lookup ParseAddress s c w)) = events w @ [CaptureError err, CreateAction ''error'']
       \<and> lookupCache (snd (Lookup ParseAddress s c w)) = lookupCache w
       \<and> clock (snd (Lookup ParseAddress s c w)) = clock w"
  using assms
  by (simp add: Lookup_parse_error has_status_400_respond emit_fields)

theorem parse_error_short_circuit_witness:
  "has_status 400 (fst (Lookup example_ParseAddress example_Service (request ''nobody'' ''json'' []) example_world))
   \<and> events (snd (Lookup example_ParseAddress example_Service (request ''nobody'' ''json'' []) example_world))
       = [CaptureError (Error ''missing @''), CreateAction ''error'']
   \<and> lookupCache (snd (Lookup example_ParseAddress example_Service (request ''nobody'' ''json'' []) example_world))
       = lookupCache example_world"
proof -
  have p: "example_ParseAddress (Param (request ''nobody'' ''json'' []) ''email'') = Inl (Error ''missing @'')"
    by (simp add: example_simps example_ParseAddress_def)
  show ?thesis
    using parse_error_short_circuit [of example_ParseAddress "request ''nobody'' ''json'' []"
        "Error ''missing @''" example_Service example_world, OF p]
    by (simp add: example_world_def has_status_400_respond)
qed

text \<open>
  C4. When the address parses, the cache has no live item for its hash and the verifier
  fails (a timeout is one such failure), the handler hands status 500 and the
  verifier's error to \<open>countAndRespond\<close>. The error is sent to raven once, the action
  \<open>error\<close> is recorded once, and the cache is left as it was. The response has status
  500 whenever the encoder accepts the request (format JSON or XML, or JSONP with a
  callback).
\<close>

theorem verification_failure:
  assumes "P (Param c ''email'') = Inr a"
    and "Get (lookupCache w) (clock w) (MD5Hash a) = None"
    and "verifier s (clock w) a (timeout s) = (Inl err, e)"
  shows "fst (Lookup P s c w) = respond c 500 (ResError err)
       \<and> (accepted c \<longrightarrow> has_status 500 (fst (Lookup P s c w)))
       \<and> events (snd (Lookup P s c w)) =
           events w @ [CacheGet (MD5Hash a), VerifyAddressTimeout a (timeout s),
                       CaptureError err, CreateAction ''error'']
       \<and> actions (events (snd (Lookup P s c w))) = actions (events w) @ [''error'']
       \<and> captured (events (snd (Lookup P s c w))) = captured (events w) @ [err]
       \<and> lookupCache (snd (Lookup P s c w)) = lookupCache w"
proof -
  have L: "Lookup P s c w =
           (respond c 500 (ResError err),
            count (ResError err)
              (advance e (emit (VerifyAddressTimeout a (timeout s)) (emit (CacheGet (MD5Hash a)) w))))"
    using assms by (rule Lookup_failure)
  have 1: "fst (Lookup P s c w) = respond c 500 (ResError err)"
    by (simp add: L)
  have 2: "accepted c \<longrightarrow> has_status 500 (fst (Lookup P s c w))"
    by (simp add: 1 respond_accepted_status)
  have 3: "events (snd (Lookup P s c w)) =
           events w @ [CacheGet (MD5Hash a), VerifyAddressTimeout a (timeout s),
                       CaptureError err, CreateAction ''error'']"
    by (simp add: L emit_fields advance_fields)
  have 4: "actions (events (snd (Lookup P s c w))) = actions (events w) @ [''error'']"
    "captured (events (snd (Lookup P s c w))) = captured (events w) @ [err]"
    by (simp_all add: 3 actions_append captured_append)
  have 5: "lookupCache (snd (Lookup P s c w)) = lookupCache w"
    by (simp add: L emit_fields advance_fields)
  from 1 2 3 4 5 show ?thesis by blast
qed

theorem verification_failure_witness:
  "has_status 500 (fst (Lookup example_ParseAddress example_Service_down (request ''a@b.c'' ''XML'' []) example_world))
   \<and> actions (events (snd (Lookup example_ParseAddress example_Service_down (request ''a@b.c'' ''XML'' []) example_world)))
       = [''error'']
   \<and> captured (events (snd (Lookup example_ParseAddress example_Service_down (request ''a@b.c'' ''XML'' []) example_world)))
       = [Error ''deadline exceeded'']
   \<and> lookupCache (snd (Lookup example_ParseAddress example_Service_down (request ''a@b.c'' ''XML'' []) example_world))
       = lookupCache example_world"
proof -
  let ?a = "\<lparr>Address = ''a@b.c'', MD5Hash = ''md5-a@b.c''\<rparr>"
  let ?c = "request ''a@b.c'' ''XML'' []"
  have p: "example_ParseAddress (Param ?c ''email'') = Inr ?a"
    by (simp add: example_simps example_ParseAddress_def)
  have g: "Get (lookupCache example_world) (clock example_world) (MD5Hash ?a) = None"
    by (simp add: example_world_def Get_def)
  have v: "verifier example_Service_down (clock example_world) ?a (timeout example_Service_down)
             = (Inl (Error ''deadline exceeded''), 10)"
    by (simp add: example_Service_down_def)
  have up: "ToUpper ''XML'' = ''XML''"
    by (simp add: ToUpper_def upper_def)
  have acc: "accepted ?c"
    by (simp add: accepted_def example_simps up FormatJSON_def FormatJSONP_def FormatXML_def)
  have "has_status 500 (fst (Lookup example_ParseAddress example_Service_down ?c example_world))
    \<and> actions (events (snd (Lookup example_ParseAddress example_Service_down ?c example_world)))
       = actions (events example_world) @ [''error'']
    \<and> captured (events (snd (Lookup example_ParseAddress example_Service_down ?c example_world)))
       = captured (events example_world) @ [Error ''deadline exceeded'']
    \<and> lookupCache (snd (Lookup example_ParseAddress example_Service_down ?c example_world))
       = lookupCache example_world"
    using verification_failure [of example_ParseAddress ?c ?a example_world example_Service_down
        "Error ''deadline exceeded''" 10, OF p g v] acc by blast
  then show ?thesis
    by (simp add: example_world_def)
qed

text \<open>
  The restriction to accepted requests is needed: with an unsupported format the
  verifier's failure is answered with the encoder's 400.
\<close>

theorem verification_failure_unsupported_format:
  "fst (verifier example_Service_down 0 \<lparr>Address = ''a@b.c'', MD5Hash = ''md5-a@b.c''\<rparr> 10)
     = Inl (Error ''deadline exceeded'')
   \<and> fst (Lookup example_ParseAddress example_Service_down (request ''a@b.c'' ''BOGUS'' []) example_world)
     = Inl (HTTPError 400 ''Unsupported format'')
   \<and> \<not> has_status 500
         (fst (Lookup example_ParseAddress example_Service_down (request ''a@b.c'' ''BOGUS'' []) example_world))"
proof -
  let ?a = "\<lparr>Address = ''a@b.c'', MD5Hash = ''md5-a@b.c''\<rparr>"
  let ?c = "request ''a@b.c'' ''BOGUS'' []"
  have p: "example_ParseAddress (Param ?c ''email'') = Inr ?a"
    by (simp add: example_simps example_ParseAddress_def)
  have g: "Get (lookupCache example_world) (clock example_world) (MD5Hash ?a) = None"
    by (simp add: example_world_def Get_def)
  have v: "verifier example_Service_down (clock example_world) ?a (timeout example_Service_down)
             = (Inl (Error ''deadline exceeded''), 10)"
    by (simp add: example_Service_down_def)
  have up: "ToUpper ''BOGUS'' = ''BOGUS''"
    by (simp add: ToUpper_def upper_def)
  have r: "respond ?c 500 (ResError (Error ''deadline exceeded'')) = Inl (HTTPError 400 ''Unsupported format'')"
    by (simp add: respond_def example_simps up FormatJSON_def FormatJSONP_def FormatXML_def
        ErrUnsupportedFormat_def)
  have "fst (Lookup example_ParseAddress example_Service_down ?c example_world)
          = Inl (HTTPError 400 ''Unsupported format'')"
    using Lookup_failure [of example_ParseAddress ?c ?a example_world example_Service_down
        "Error ''deadline exceeded''" 10, OF p g v] r by simp
  then show ?thesis
    by (simp add: example_Service_down_def)
qed

subsection \<open>Metrics\<close>

text \<open>
  C6. \<open>count\<close> classifies the response: a lookup that is deliverable gives the action
  \<open>deliverable\<close>, a lookup that is not gives \<open>undeliverable\<close>, and an error is sent to
  raven and gives the action \<open>error\<close>. Every request reaches \<open>count\<close> exactly once: the
  handler is one call of \<open>countAndRespond\<close> on a lookup or an error, in a world to which
  the request has so far added no action and no captured error.
\<close>

theorem telemetry_classification:
  "count (ResLookup l) w =
     emit (CreateAction (if Deliverable l then ''deliverable'' else ''undeliverable'')) w
   \<and> count (ResError err) w = emit (CreateAction ''error'') (emit (CaptureError err) w)
   \<and> actions (events (count (ResLookup l) w)) =
       actions (events w) @ [if Deliverable l then ''deliverable'' else ''undeliverable'']
   \<and> captured (events (count (ResLookup l) w)) = captured (events w)
   \<and> actions (events (count (ResError err) w)) = actions (events w) @ [''error'']
   \<and> captured (events (count (ResError err) w)) = captured (events w) @ [err]
   \<and> (\<exists>code r w'. Lookup ParseAddress s c w = countAndRespond c code r w'
         \<and> snd (Lookup ParseAddress s c w) = count r w'
         \<and> r \<noteq> ResOther
         \<and> actions (events w') = actions (events w)
         \<and> captured (events w') = captured (events w))"
proof -
  have 1: "count (ResLookup l) w =
     emit (CreateAction (if Deliverable l then ''deliverable'' else ''undeliverable'')) w"
    by simp
  have 2: "count (ResError err) w = emit (CreateAction ''error'') (emit (CaptureError err) w)"
    by simp
  have 3: "actions (events (count (ResLookup l) w)) =
       actions (events w) @ [if Deliverable l then ''deliverable'' else ''undeliverable'']"
    "captured (events (count (ResLookup l) w)) = captured (events w)"
    "actions (events (count (ResError err) w)) = actions (events w) @ [''error'']"
    "captured (events (count (ResError err) w)) = captured (events w) @ [err]"
    by (simp_all add: emit_fields actions_append captured_append)
  obtain code r w' where 4: "Lookup ParseAddress s c w = countAndRespond c code r w'"
    "r \<noteq> ResOther" "actions (events w') = actions (events w)"
    "captured (events w') = captured (events w)"
    using Lookup_counts_once by blast
  from 4(1) have 5: "snd (Lookup ParseAddress s c w) = count r w'"
    by (simp add: snd_countAndRespond)
  from 1 2 3 4 5 show ?thesis by blast
qed

theorem telemetry_classification_witness:
  "actions (events (count (ResLookup \<lparr>Deliverable = True, Details = []\<rparr>) example_world)) = [''deliverable'']
   \<and> actions (events (count (ResLookup \<lparr>Deliverable = False, Details = []\<rparr>) example_world)) = [''undeliverable'']
   \<and> actions (events (count (ResError (Error ''missing @'')) example_world)) = [''error'']
   \<and> captured (events (count (ResError (Error ''missing @'')) example_world)) = [Error ''missing @'']"
  using telemetry_classification [of "\<lparr>Deliverable = True, Details = []\<rparr>" example_world "Error ''missing @''"]
    telemetry_classification [of "\<lparr>Deliverable = False, Details = []\<rparr>" example_world "Error ''missing @''"]
  by (simp add: example_world_def)

text \<open>
  C8. Metrics are taken from the result handed to \<open>countAndRespond\<close>, not from what the
  encoder returns. When the cache or the verifier gave a lookup and the encoder rejects
  the request (unsupported format, or JSONP without callback), the handler returns the
  encoder's error, the action recorded is \<open>deliverable\<close> or \<open>undeliverable\<close>, and nothing
  is sent to raven. The world after a request does not depend on the format and the
  callback at all, and an error handed to \<open>countAndRespond\<close> is the one sent to raven.
\<close>

theorem encoding_errors_not_counted:
  assumes "P (Param c ''email'') = Inr a"
    and "Get (lookupCache w) (clock w) (MD5Hash a) = Some l
         \<or> (Get (lookupCache w) (clock w) (MD5Hash a) = None
            \<and> fst (verifier s (clock w) a (timeout s)) = Inr l)"
    and "\<not> accepted c"
  shows "(fst (Lookup P s c w) = Inl ErrUnsupportedFormat \<or> fst (Lookup P s c w) = Inl ErrInvalidCallback)
       \<and> actions (events (snd (Lookup P s c w))) =
           actions (events w) @ [if Deliverable l then ''deliverable'' else ''undeliverable'']
       \<and> captured (events (snd (Lookup P s c w))) = captured (events w)
       \<and> (\<forall>c'. Param c' ''email'' = Param c ''email'' \<longrightarrow> snd (Lookup P s c' w) = snd (Lookup P s c w))
       \<and> captured (events (snd (countAndRespond c code (ResError err) w))) = captured (events w) @ [err]"
proof -
  obtain code' r' where "fst (Lookup P s c w) = respond c code' r'"
    using fst_Lookup_respond by blast
  with assms(3) have 1: "fst (Lookup P s c w) = Inl ErrUnsupportedFormat
      \<or> fst (Lookup P s c w) = Inl ErrInvalidCallback"
    using respond_not_accepted by simp
  have 2: "actions (events (snd (Lookup P s c w))) =
           actions (events w) @ [if Deliverable l then ''deliverable'' else ''undeliverable'']
       \<and> captured (events (snd (Lookup P s c w))) = captured (events w)"
    using assms(2)
  proof
    assume "Get (lookupCache w) (clock w) (MD5Hash a) = Some l"
    with assms(1) show ?thesis
      by (simp add: Lookup_hit emit_fields actions_append captured_append)
  next
    assume h: "Get (lookupCache w) (clock w) (MD5Hash a) = None
            \<and> fst (verifier s (clock w) a (timeout s)) = Inr l"
    then obtain e where "verifier s (clock w) a (timeout s) = (Inr l, e)"
      by (cases "verifier s (clock w) a (timeout s)") simp
    with assms(1) h show ?thesis
      by (simp add: Lookup_fresh emit_fields advance_fields actions_append captured_append)
  qed
  have 3: "\<forall>c'. Param c' ''email'' = Param c ''email'' \<longrightarrow> snd (Lookup P s c' w) = snd (Lookup P s c w)"
    using snd_Lookup_format_independent by blast
  have 4: "captured (events (snd (countAndRespond c code (ResError err) w))) = captured (events w) @ [err]"
    by (simp add: snd_countAndRespond emit_fields captured_append)
  from 1 2 3 4 show ?thesis by blast
qed

theorem encoding_errors_not_counted_witness:
  "fst (Lookup example_ParseAddress example_Service (request ''a@b.c'' ''yaml'' []) example_world)
     = Inl ErrUnsupportedFormat
   \<and> actions (events (snd (Lookup example_ParseAddress example_Service (request ''a@b.c'' ''yaml'' []) example_world)))
     = [''deliverable'']
   \<and> captured (events (snd (Lookup example_ParseAddress example_Service (request ''a@b.c'' ''yaml'' []) example_world)))
     = []"
proof -
  let ?a = "\<lparr>Address = ''a@b.c'', MD5Hash = ''md5-a@b.c''\<rparr>"
  let ?l = "\<lparr>Deliverable = True, Details = ''a@b.c''\<rparr>"
  have p: "example_ParseAddress (Param (request ''a@b.c'' ''yaml'' []) ''email'') = Inr ?a"
    by (simp add: example_simps example_ParseAddress_def)
  have g: "Get (lookupCache example_world) (clock example_world) (MD5Hash ?a) = Some ?l
         \<or> (Get (lookupCache example_world) (clock example_world) (MD5Hash ?a) = None
            \<and> fst (verifier example_Service (clock example_world) ?a (timeout example_Service)) = Inr ?l)"
    by (simp add: example_world_def example_Service_def Get_def)
  have up: "ToUpper ''yaml'' = ''YAML''"
    by (simp add: ToUpper_def upper_def)
  have n: "\<not> accepted (request ''a@b.c'' ''yaml'' [])"
    by (simp add: accepted_def example_simps up FormatJSON_def FormatJSONP_def FormatXML_def)
  have u: "respond (request ''a@b.c'' ''yaml'' []) code r \<noteq> Inl ErrInvalidCallback" for code r
    by (simp add: respond_def example_simps up FormatJSON_def FormatJSONP_def FormatXML_def
        ErrInvalidCallback_def ErrUnsupportedFormat_def)
  obtain code r where "fst (Lookup example_ParseAddress example_Service (request ''a@b.c'' ''yaml'' []) example_world)
      = respond (request ''a@b.c'' ''yaml'' []) code r"
    using fst_Lookup_respond by blast
  with u have "fst (Lookup example_ParseAddress example_Service (request ''a@b.c'' ''yaml'' []) example_world)
      \<noteq> Inl ErrInvalidCallback" by simp
  moreover have "(fst (Lookup example_ParseAddress example_Service (request ''a@b.c'' ''yaml'' []) example_world)
        = Inl ErrUnsupportedFormat
      \<or> fst (Lookup example_ParseAddress example_Service (request ''a@b.c'' ''yaml'' []) example_world)
        = Inl ErrInvalidCallback)
    \<and> actions (events (snd (Lookup example_ParseAddress example_Service (request ''a@b.c'' ''yaml'' []) example_world)))
        = actions (events example_world) @ [if Deliverable ?l then ''deliverable'' else ''undeliverable'']
    \<and> captured (events (snd (Lookup example_ParseAddress example_Service (request ''a@b.c'' ''yaml'' []) example_world)))
        = captured (events example_world)"
    using encoding_errors_not_counted [of example_ParseAddress "request ''a@b.c'' ''yaml'' []" ?a
      example_world ?l example_Service, OF p g n] by blast
  ultimately show ?thesis
    by (simp add: example_world_def)
qed

subsection \<open>The cache\<close>

text \<open>
  C9. When the verifier succeeds, the lookup is stored under the hash of the address
  before the response is encoded: the record of calls shows the cache write before the
  metrics call, and the item is there whatever the encoder then returns, also when it
  returns one of its two errors. A later request for the same address that arrives no
  more than the default expiration after the first one ended is answered from the
  cache, by any service and without a call of the verifier.
\<close>

theorem cache_populated_before_encoding:
  assumes "P (Param c ''email'') = Inr a"
    and "Get (lookupCache w) (clock w) (MD5Hash a) = None"
    and "verifier s (clock w) a (timeout s) = (Inr l, e)"
    and "w1 = snd (Lookup P s c w)"
    and "P (Param c' ''email'') = Inr a"
    and "d \<le> defaultExpiration (lookupCache w)"
  shows "Get (lookupCache w1) (clock w1 + d) (MD5Hash a) = Some l
       \<and> events w1 =
           events w @ [CacheGet (MD5Hash a), VerifyAddressTimeout a (timeout s),
                       CacheSetDefault (MD5Hash a) l,
                       CreateAction (if Deliverable l then ''deliverable'' else ''undeliverable'')]
       \<and> (\<not> accepted c \<longrightarrow>
            fst (Lookup P s c w) = Inl ErrUnsupportedFormat
          \<or> fst (Lookup P s c w) = Inl ErrInvalidCallback)
       \<and> Lookup P s' c' (advance d w1) =
           (respond c' 200 (ResLookup l),
            count (ResLookup l) (emit (CacheGet (MD5Hash a)) (advance d w1)))
       \<and> verifications (events (snd (Lookup P s' c' (advance d w1)))) = verifications (events w1)"
proof -
  note fw = Lookup_fresh_world [where P=P and c=c, OF assms(1-3), folded assms(4)]
  let ?it = "\<lparr>Object = l, Expiration = clock w + e + defaultExpiration (lookupCache w)\<rparr>"
  have live: "clock w1 + d \<le> Expiration ?it"
    using assms(6) by (simp add: fw(1))
  have 1: "Get (lookupCache w1) (clock w1 + d) (MD5Hash a) = Some l"
    using Get_live [OF fw(2) live] by simp
  have 2: "\<not> accepted c \<longrightarrow>
            fst (Lookup P s c w) = Inl ErrUnsupportedFormat
          \<or> fst (Lookup P s c w) = Inl ErrInvalidCallback"
    using respond_not_accepted [of c 200 "ResLookup l"] by (simp add: fw(5))
  have it: "items (lookupCache (advance d w1)) (MD5Hash a) = Some ?it"
    by (simp add: advance_fields fw(2))
  have live': "clock (advance d w1) \<le> Expiration ?it"
    using live by (simp add: advance_fields)
  have 3: "Lookup P s' c' (advance d w1) =
           (respond c' 200 (ResLookup l),
            count (ResLookup l) (emit (CacheGet (MD5Hash a)) (advance d w1)))"
    using Lookup_served_from_cache [where P=P and c=c', OF assms(5) it live', of s'] by simp
  have 4: "verifications (events (snd (Lookup P s' c' (advance d w1)))) = verifications (events w1)"
    by (simp add: 3 emit_fields advance_fields verifications_append)
  from 1 fw(3) 2 3 4 show ?thesis by blast
qed

theorem cache_populated_before_encoding_witness:
  "fst (Lookup example_ParseAddress example_Service (request ''a@b.c'' ''bogus'' []) example_world)
     = Inl ErrUnsupportedFormat
   \<and> Get (lookupCache (snd (Lookup example_ParseAddress example_Service (request ''a@b.c'' ''bogus'' []) example_world)))
         (2 + 3600) ''md5-a@b.c''
     = Some \<lparr>Deliverable = True, Details = ''a@b.c''\<rparr>
   \<and> fst (Lookup example_ParseAddress example_Service_down (request ''a@b.c'' ''JSON'' [])
       (advance 3600
          (snd (Lookup example_ParseAddress example_Service (request ''a@b.c'' ''bogus'' []) example_world))))
     = Inr (JSON 200 (ResLookup \<lparr>Deliverable = True, Details = ''a@b.c''\<rparr>))
   \<and> verifications (events (snd (Lookup example_ParseAddress example_Service_down (request ''a@b.c'' ''JSON'' [])
       (advance 3600
          (snd (Lookup example_ParseAddress example_Service (request ''a@b.c'' ''bogus'' []) example_world))))))
     = [\<lparr>Address = ''a@b.c'', MD5Hash = ''md5-a@b.c''\<rparr>]"
proof -
  let ?a = "\<lparr>Address = ''a@b.c'', MD5Hash = ''md5-a@b.c''\<rparr>"
  let ?l = "\<lparr>Deliverable = True, Details = ''a@b.c''\<rparr>"
  let ?c = "request ''a@b.c'' ''bogus'' []"
  let ?c' = "request ''a@b.c'' ''JSON'' []"
  let ?w1 = "snd (Lookup example_ParseAddress example_Service ?c example_world)"
  have p: "example_ParseAddress (Param ?c ''email'') = Inr ?a"
    and p': "example_ParseAddress (Param ?c' ''email'') = Inr ?a"
    by (simp_all add: example_simps example_ParseAddress_def)
  have g: "Get (lookupCache example_world) (clock example_world) (MD5Hash ?a) = None"
    by (simp add: example_world_def Get_def)
  have v: "verifier example_Service (clock example_world) ?a (timeout example_Service) = (Inr ?l, 2)"
    by (simp add: example_Service_def)
  have d: "(3600::nat) \<le> defaultExpiration (lookupCache example_world)"
    by (simp add: example_world_def)
  have up: "ToUpper ''bogus'' = ''BOGUS''" "ToUpper ''JSON'' = ''JSON''"
    by (simp_all add: ToUpper_def upper_def)
  have r: "respond ?c 200 (ResLookup ?l) = Inl ErrUnsupportedFormat"
    "respond ?c' 200 (ResLookup ?l) = Inr (JSON 200 (ResLookup ?l))"
    by (simp_all add: respond_def example_simps up FormatJSON_def FormatJSONP_def FormatXML_def)
  have f: "fst (Lookup example_ParseAddress example_Service ?c example_world) = Inl ErrUnsupportedFormat"
    using Lookup_fresh_world(5) [where P=example_ParseAddress and c="?c", OF p g v] r by simp
  have c1: "clock ?w1 = 2" "verifications (events ?w1) = [?a]"
    using Lookup_fresh_world(1,3) [where P=example_ParseAddress and c="?c", OF p g v]
    by (simp_all add: example_world_def)
  note t = cache_populated_before_encoding [where P=example_ParseAddress and c="?c" and c'="?c'"
        and s'=example_Service_down, OF p g v refl p' d]
  from t have a: "Get (lookupCache ?w1) (clock ?w1 + 3600) (MD5Hash ?a) = Some ?l"
    by blast
  from t have "Lookup example_ParseAddress example_Service_down ?c' (advance 3600 ?w1) =
           (respond ?c' 200 (ResLookup ?l),
            count (ResLookup ?l) (emit (CacheGet (MD5Hash ?a)) (advance 3600 ?w1)))"
    by blast
  then have b: "fst (Lookup example_ParseAddress example_Service_down ?c' (advance 3600 ?w1))
      = respond ?c' 200 (ResLookup ?l)"
    by simp
  from t have c: "verifications (events (snd (Lookup example_ParseAddress example_Service_down ?c'
        (advance 3600 ?w1)))) = verifications (events ?w1)"
    by blast
  from f a b c c1 r show ?thesis by simp
qed

text \<open>
  C1. A first request for an address misses the cache and the verifier answers with a
  lookup; this is the one call of the verifier for that hash. Then other requests are
  served, time passes, and a request for the same address arrives no later than the
  default expiration after the first one ended. The handler hands status 200 and the
  stored lookup to \<open>countAndRespond\<close>, whatever the verifier of the service would answer
  now, and the number of verifier calls for the hash stays what it was after the first
  request. When the encoder accepts the request (format JSON or XML, or JSONP with a
  callback) the response has status 200 and carries that lookup. A request with the
  format and callback of the first one gets the response of the first one.
\<close>

theorem memoization:
  assumes "P (Param c ''email'') = Inr a"
    and "Get (lookupCache w) (clock w) (MD5Hash a) = None"
    and "verifier s (clock w) a (timeout s) = (Inr l, e)"
    and "w1 = snd (Lookup P s c w)"
    and "w2 = advance d (serve P s rs w1)"
    and "clock w2 \<le> clock w1 + defaultExpiration (lookupCache w)"
    and "P (Param c' ''email'') = Inr a"
  shows "fst (Lookup P s' c' w2) = respond c' 200 (ResLookup l)
       \<and> (accepted c' \<longrightarrow>
            has_status 200 (fst (Lookup P s' c' w2))
          \<and> (\<exists>call. fst (Lookup P s' c' w2) = Inr call \<and> call_res call = ResLookup l))
       \<and> invocations (MD5Hash a) w1 = Suc (invocations (MD5Hash a) w)
       \<and> invocations (MD5Hash a) (snd (Lookup P s' c' w2)) = invocations (MD5Hash a) w1
       \<and> (Param c' ''format'' = Param c ''format'' \<and> QueryParam c' ''callback'' = QueryParam c ''callback''
            \<longrightarrow> fst (Lookup P s' c' w2) = fst (Lookup P s c w))"
proof -
  note fw = Lookup_fresh_world [where P=P and c=c, OF assms(1-3), folded assms(4)]
  let ?k = "MD5Hash a"
  let ?it = "\<lparr>Object = l, Expiration = clock w + e + defaultExpiration (lookupCache w)\<rparr>"
  let ?w' = "serve P s rs w1"
  have exp: "clock w2 \<le> Expiration ?it"
    using assms(6) by (simp add: fw(1))
  have "clock ?w' \<le> clock w2"
    by (simp add: assms(5) advance_fields)
  with exp have "clock ?w' \<le> Expiration ?it" by simp
  from serve_keeps_live [OF fw(2) this]
  have kept: "items (lookupCache ?w') ?k = Some ?it" "invocations ?k ?w' = invocations ?k w1"
    by simp_all
  have it2: "items (lookupCache w2) ?k = Some ?it"
    by (simp add: assms(5) advance_fields kept(1))
  have L: "Lookup P s' c' w2 =
           (respond c' 200 (ResLookup l), count (ResLookup l) (emit (CacheGet ?k) w2))"
    using Lookup_served_from_cache [where P=P and c=c', OF assms(7) it2 exp, of s'] by simp
  have 1: "fst (Lookup P s' c' w2) = respond c' 200 (ResLookup l)"
    by (simp add: L)
  have 2: "accepted c' \<longrightarrow>
            has_status 200 (fst (Lookup P s' c' w2))
          \<and> (\<exists>call. fst (Lookup P s' c' w2) = Inr call \<and> call_res call = ResLookup l)"
    using respond_accepted [of c' 200 "ResLookup l"] respond_accepted_status [of c' 200 "ResLookup l"]
    by (auto simp: 1)
  have "invocations ?k (snd (Lookup P s' c' w2)) = invocations ?k w2"
    by (simp add: L invocations_emit)
  also have "\<dots> = invocations ?k ?w'"
    by (simp add: assms(5) invocations_advance)
  finally have 3: "invocations ?k (snd (Lookup P s' c' w2)) = invocations ?k w1"
    by (simp add: kept(2))
  have 4: "Param c' ''format'' = Param c ''format'' \<and> QueryParam c' ''callback'' = QueryParam c ''callback''
            \<longrightarrow> fst (Lookup P s' c' w2) = fst (Lookup P s c w)"
    by (simp add: 1 fw(5) respond_def Let_def)
  from 1 2 fw(4) 3 4 show ?thesis by blast
qed

theorem memoization_witness:
  "has_status 200
     (fst (Lookup example_ParseAddress example_Service_down (request ''a@b.c'' ''xml'' [])
        (advance 10 (serve example_ParseAddress example_Service [(5, request ''x@y.z'' ''json'' [])]
           example_after_first))))
   \<and> invocations ''md5-a@b.c'' example_world = 0
   \<and> invocations ''md5-a@b.c'' example_after_first = 1
   \<and> invocations ''md5-a@b.c''
       (snd (Lookup example_ParseAddress example_Service_down (request ''a@b.c'' ''xml'' [])
          (advance 10 (serve example_ParseAddress example_Service [(5, request ''x@y.z'' ''json'' [])]
             example_after_first)))) = 1
   \<and> fst (Lookup example_ParseAddress example_Service_down (request ''a@b.c'' ''JSON'' [])
          (advance 10 (serve example_ParseAddress example_Service [(5, request ''x@y.z'' ''json'' [])]
             example_after_first)))
     = fst (Lookup example_ParseAddress example_Service (request ''a@b.c'' ''JSON'' []) example_world)"
proof -
  let ?a = "\<lparr>Address = ''a@b.c'', MD5Hash = ''md5-a@b.c''\<rparr>"
  let ?l = "\<lparr>Deliverable = True, Details = ''a@b.c''\<rparr>"
  let ?c = "request ''a@b.c'' ''JSON'' []"
  let ?x = "request ''a@b.c'' ''xml'' []"
  let ?rs = "[(5, request ''x@y.z'' ''json'' [])]"
  let ?w2 = "advance 10 (serve example_ParseAddress example_Service ?rs example_after_first)"
  have p: "example_ParseAddress (Param ?c ''email'') = Inr ?a"
    and px: "example_ParseAddress (Param ?x ''email'') = Inr ?a"
    by (simp_all add: example_simps example_ParseAddress_def)
  have g: "Get (lookupCache example_world) (clock example_world) (MD5Hash ?a) = None"
    by (simp add: example_world_def Get_def)
  have v: "verifier example_Service (clock example_world) ?a (timeout example_Service) = (Inr ?l, 2)"
    by (simp add: example_Service_def)
  have k: "clock example_after_first = 2" "defaultExpiration (lookupCache example_world) = 3600"
    by (simp_all add: example_after_first_eq example_world_def)
  have t: "clock ?w2 \<le> clock example_after_first + defaultExpiration (lookupCache example_world)"
    unfolding example_serve_clock k by simp
  have up: "ToUpper ''xml'' = ''XML''"
    by (simp add: ToUpper_def upper_def)
  have acc: "accepted ?x"
    by (simp add: accepted_def example_simps up FormatJSON_def FormatJSONP_def FormatXML_def)
  have z: "invocations ''md5-a@b.c'' example_world = 0"
    by (simp add: invocations_def example_world_def)
  note m1 = memoization [where P=example_ParseAddress and c="?c" and c'="?x" and rs="?rs"
      and s'=example_Service_down, OF p g v example_after_first_def refl t px]
  note m2 = memoization [where P=example_ParseAddress and c="?c" and c'="?c" and rs="?rs"
      and s'=example_Service_down, OF p g v example_after_first_def refl t p]
  from m1 acc have 1: "has_status 200 (fst (Lookup example_ParseAddress example_Service_down ?x ?w2))"
    by blast
  from m1 have 2: "invocations (MD5Hash ?a) example_after_first = Suc (invocations (MD5Hash ?a) example_world)"
    and 3: "invocations (MD5Hash ?a) (snd (Lookup example_ParseAddress example_Service_down ?x ?w2))
              = invocations (MD5Hash ?a) example_after_first"
    by blast+
  from m2 have 4: "fst (Lookup example_ParseAddress example_Service_down ?c ?w2)
     = fst (Lookup example_ParseAddress example_Service ?c example_world)"
    by blast
  from 1 2 3 4 z show ?thesis by simp
qed

text \<open>
  The restriction to accepted requests is needed: a later request for the cached
  address with an unsupported format is answered with the encoder's 400.
\<close>

theorem memoization_unsupported_format:
  "fst (Lookup example_ParseAddress example_Service (request ''a@b.c'' ''JSON'' []) example_world)
     = Inr (JSON 200 (ResLookup \<lparr>Deliverable = True, Details = ''a@b.c''\<rparr>))
   \<and> example_after_first
     = snd (Lookup example_ParseAddress example_Service (request ''a@b.c'' ''JSON'' []) example_world)
   \<and> fst (Lookup example_ParseAddress example_Service (request ''a@b.c'' ''BOGUS'' [])
          (advance 1 example_after_first))
     = Inl (HTTPError 400 ''Unsupported format'')
   \<and> \<not> has_status 200
       (fst (Lookup example_ParseAddress example_Service (request ''a@b.c'' ''BOGUS'' [])
          (advance 1 example_after_first)))"
proof -
  have up: "ToUpper ''JSON'' = ''JSON''" "ToUpper ''BOGUS'' = ''BOGUS''"
    by (simp_all add: ToUpper_def upper_def)
  have 1: "fst (Lookup example_ParseAddress example_Service (request ''a@b.c'' ''JSON'' []) example_world)
     = Inr (JSON 200 (ResLookup \<lparr>Deliverable = True, Details = ''a@b.c''\<rparr>))"
    by (simp add: eval_defs respond_def up FormatJSON_def)
  have 2: "fst (Lookup example_ParseAddress example_Service (request ''a@b.c'' ''BOGUS'' [])
          (advance 1 example_after_first))
     = Inl (HTTPError 400 ''Unsupported format'')"
    by (simp add: example_after_first_eq eval_defs respond_def up FormatJSON_def FormatJSONP_def
        FormatXML_def ErrUnsupportedFormat_def)
  from 1 2 show ?thesis
    by (simp add: example_after_first_def)
qed

end
